theory Spec2Isabelle
  imports Complex_Main
begin

section \<open>The lunch-picker service (main.py): data model\<close>

text \<open>
  The service keeps four SQL tables. A table is modelled as the list of its rows in
  insertion order. The columns the code never writes on insert stay NULL and are
  options: \<open>result\<close> of a session and \<open>session_id\<close> of a restaurant. Identifiers
  and counts are Python integers, hence \<open>int\<close>. Names are Python strings that
  the store accepts as text; \<open>string\<close> stands for them.
\<close>

record session_row =
  s_id :: int
  s_name :: string
  s_progress :: int
  s_expected_number_of_participants :: int
  s_owner_id :: int
  s_status :: string
  s_result :: "string option"

record user_row =
  u_id :: int
  u_name :: string

record restaurant_row =
  r_id :: int
  r_session_id :: "int option"
  r_name :: string

record submission_row =
  usr_id :: int
  usr_user_id :: int
  usr_session_id :: int
  usr_restaurant_id :: int

record database =
  sessions_table :: "session_row list"
  users_table :: "user_row list"
  restaurants_table :: "restaurant_row list"
  user_session_restaurants_table :: "submission_row list"

definition empty_database :: database where
  "empty_database =
     \<lparr>sessions_table = [], users_table = [], restaurants_table = [],
      user_session_restaurants_table = []\<rparr>"

text \<open>
  What a handler can raise: the \<open>HTTPException\<close> it raises itself (status code and
  detail), the \<open>IndexError\<close> of \<open>random.choice\<close> on an empty sequence, the
  \<open>TypeError\<close> of subscripting \<open>None\<close>, and the \<open>OverflowError\<close> of the
  SQLite driver when a statement is given an integer it cannot bind.
\<close>

datatype error = HTTPException int string | IndexError | TypeError | OverflowError

section \<open>Store access\<close>

text \<open>
  An integer of the request (a path parameter or a field of the JSON body, both of
  type \<open>int\<close> and so unbounded) becomes a parameter of an SQL statement. SQLite
  binds signed 64-bit integers only; for any other integer the driver raises
  OverflowError when the statement is executed.
\<close>

definition sqlite_integer :: "int \<Rightarrow> bool" where
  "sqlite_integer i \<longleftrightarrow> - (2 ^ 63) \<le> i \<and> i < 2 ^ 63"

text \<open>\<open>database.fetch_one\<close>: the first row that satisfies the WHERE clause, or None.\<close>

definition fetch_one :: "('a \<Rightarrow> bool) \<Rightarrow> 'a list \<Rightarrow> 'a option" where
  "fetch_one p rows = List.find p rows"

text \<open>\<open>database.fetch_all\<close>: every row that satisfies the WHERE clause.\<close>

definition fetch_all :: "('a \<Rightarrow> bool) \<Rightarrow> 'a list \<Rightarrow> 'a list" where
  "fetch_all p rows = filter p rows"

text \<open>
  The integer primary key of an inserted row: one more than the largest key of the
  table, 1 for an empty table (keys are never given by the code, so all are positive).
\<close>

fun max_id :: "int list \<Rightarrow> int" where
  "max_id [] = 0"
| "max_id (i # is) = max i (max_id is)"

definition last_record_id :: "int list \<Rightarrow> int" where
  "last_record_id ids = max_id ids + 1"

definition insert_user :: "string \<Rightarrow> database \<Rightarrow> int \<times> database" where
  "insert_user name db =
     (let i = last_record_id (map u_id (users_table db))
      in (i, db\<lparr>users_table := users_table db @ [\<lparr>u_id = i, u_name = name\<rparr>]\<rparr>))"

definition insert_restaurant :: "string \<Rightarrow> database \<Rightarrow> int \<times> database" where
  "insert_restaurant name db =
     (let i = last_record_id (map r_id (restaurants_table db))
      in (i, db\<lparr>restaurants_table :=
                  restaurants_table db @ [\<lparr>r_id = i, r_session_id = None, r_name = name\<rparr>]\<rparr>))"

definition insert_session :: "string \<Rightarrow> int \<Rightarrow> int \<Rightarrow> database \<Rightarrow> int \<times> database" where
  "insert_session name owner_id participants db =
     (let i = last_record_id (map s_id (sessions_table db))
      in (i, db\<lparr>sessions_table := sessions_table db @
                  [\<lparr>s_id = i, s_name = name, s_progress = 0,
                    s_expected_number_of_participants = participants,
                    s_owner_id = owner_id, s_status = ''open'', s_result = None\<rparr>]\<rparr>))"

definition insert_submission :: "int \<Rightarrow> int \<Rightarrow> int \<Rightarrow> database \<Rightarrow> int \<times> database" where
  "insert_submission user_id session_id restaurant_id db =
     (let i = last_record_id (map usr_id (user_session_restaurants_table db))
      in (i, db\<lparr>user_session_restaurants_table := user_session_restaurants_table db @
                  [\<lparr>usr_id = i, usr_user_id = user_id, usr_session_id = session_id,
                    usr_restaurant_id = restaurant_id\<rparr>]\<rparr>))"

text \<open>\<open>sessions_table.update().where(id == session_id).values(...)\<close>\<close>

definition update_session :: "int \<Rightarrow> (session_row \<Rightarrow> session_row) \<Rightarrow> database \<Rightarrow> database" where
  "update_session session_id f db =
     db\<lparr>sessions_table := map (\<lambda>s. if s_id s = session_id then f s else s) (sessions_table db)\<rparr>"

section \<open>Library functions of Python\<close>

text \<open>
  \<open>random.choice(seq)\<close> raises IndexError on an empty sequence and otherwise returns
  \<open>seq[i]\<close> for a drawn index \<open>i\<close> below \<open>len(seq)\<close>. The draw is the parameter
  \<open>rnd\<close>, reduced below the length, so every index is the outcome of some draw.
\<close>

definition random_choice :: "nat \<Rightarrow> 'a list \<Rightarrow> error + 'a" where
  "random_choice rnd seq =
     (if seq = [] then Inl IndexError else Inr (seq ! (rnd mod length seq)))"

text \<open>
  \<open>round(x)\<close> with one argument: the nearest integer, a tie going to the even one.
  The quotient \<open>n * 100 / participants\<close> is taken exactly, as a rational; Python's
  float quotient rounds to the same integer as long as \<open>n * 100\<close> stays below \<open>2^52\<close>.
\<close>

definition py_round :: "rat \<Rightarrow> int" where
  "py_round x =
     (let f = \<lfloor>x\<rfloor>; d = x - of_int f
      in if d < 1 / 2 then f
         else if 1 / 2 < d then f + 1
         else if even f then f else f + 1)"

section \<open>The handlers\<close>

text \<open>
  Every statement of the store is committed on its own (no transaction is opened), so
  a handler returns the database as it stands when the handler returns or raises.
\<close>

text \<open>POST /login/: the password is not read. Returns user_id and username.\<close>

definition login :: "string \<Rightarrow> database \<Rightarrow> (error + int \<times> string) \<times> database" where
  "login username db =
     (case fetch_one (\<lambda>u. u_name u = username) (users_table db) of
        None \<Rightarrow>
          (let (last_id, db1) = insert_user username db
           in (Inr (last_id, username), db1))
      | Some user \<Rightarrow> (Inr (u_id user, u_name user), db))"

text \<open>
  POST /create-session/: returns session_id, name and owner_id. The owner is looked
  up, and inserted if absent, before the INSERT of the session binds
  \<open>session_participants\<close>.
\<close>

definition create_session ::
  "string \<Rightarrow> string \<Rightarrow> int \<Rightarrow> database \<Rightarrow> (error + int \<times> string \<times> int) \<times> database" where
  "create_session name owner_name session_participants db =
     (let (owner_id, db1) =
            (case fetch_one (\<lambda>u. u_name u = owner_name) (users_table db) of
               None \<Rightarrow> insert_user owner_name db
             | Some user \<Rightarrow> (u_id user, db))
      in if \<not> sqlite_integer session_participants then (Inl OverflowError, db1)
         else (let (last_id, db2) = insert_session name owner_id session_participants db1
               in (Inr (last_id, name, owner_id), db2)))"

text \<open>
  PUT /session/{session_id}/end: returns the message and the result. The first
  statement already binds \<open>session_id\<close>.
\<close>

definition end_session :: "nat \<Rightarrow> int \<Rightarrow> database \<Rightarrow> (error + string \<times> string) \<times> database" where
  "end_session rnd session_id db =
     (if \<not> sqlite_integer session_id then (Inl OverflowError, db)
      else case fetch_one (\<lambda>s. s_id s = session_id) (sessions_table db) of
        None \<Rightarrow> (Inl (HTTPException 404 ''Session not found''), db)
      | Some session \<Rightarrow>
          (let db1 = update_session session_id (\<lambda>s. s\<lparr>s_status := ''closed''\<rparr>) db;
               submissions = fetch_all (\<lambda>x. usr_session_id x = session_id)
                               (user_session_restaurants_table db1)
           in case random_choice rnd submissions of
                Inl e \<Rightarrow> (Inl e, db1)
              | Inr random_result \<Rightarrow>
                  (case fetch_one (\<lambda>r. r_id r = usr_restaurant_id random_result)
                          (restaurants_table db1) of
                     None \<Rightarrow> (Inl TypeError, db1)
                   | Some restaurant_selected \<Rightarrow>
                       (Inr (''Session ended successfully'', r_name restaurant_selected),
                        update_session session_id
                          (\<lambda>s. s\<lparr>s_result := Some (r_name restaurant_selected)\<rparr>) db1))))"

text \<open>
  GET /check-submission/{session_id}/{username}: returns \<open>submitted\<close> and, when
  submitted, \<open>restaurantName\<close>. It reads only. The user is looked up by name
  first; the query of the submissions is the first statement that binds
  \<open>session_id\<close>.
\<close>

definition check_submission :: "int \<Rightarrow> string \<Rightarrow> database \<Rightarrow> error + bool \<times> string option" where
  "check_submission session_id username db =
     (case fetch_one (\<lambda>u. u_name u = username) (users_table db) of
        None \<Rightarrow> Inl (HTTPException 404 ''User not found'')
      | Some user \<Rightarrow>
          (if \<not> sqlite_integer session_id then Inl OverflowError
           else case fetch_one (\<lambda>x. usr_session_id x = session_id \<and> usr_user_id x = u_id user)
                  (user_session_restaurants_table db) of
             Some submission \<Rightarrow>
               (case fetch_one (\<lambda>r. r_id r = usr_restaurant_id submission)
                       (restaurants_table db) of
                  None \<Rightarrow> Inl TypeError
                | Some restaurant \<Rightarrow> Inr (True, Some (r_name restaurant)))
           | None \<Rightarrow> Inr (False, None)))"

text \<open>The progress that submit_restaurant computes from the number of submissions.\<close>

definition progress_value :: "nat \<Rightarrow> int \<Rightarrow> int" where
  "progress_value len_submissions participants =
     (if participants > 0
      then py_round (of_int (int len_submissions * 100) / of_int participants)
      else 0)"

text \<open>
  POST /submit-restaurant/: returns the message. The first statement already binds
  \<open>session_id\<close>.
\<close>

definition submit_restaurant ::
  "int \<Rightarrow> string \<Rightarrow> string \<Rightarrow> database \<Rightarrow> (error + string) \<times> database" where
  "submit_restaurant session_id restaurant_name user_name db =
     (if \<not> sqlite_integer session_id then (Inl OverflowError, db)
      else case fetch_one (\<lambda>s. s_id s = session_id) (sessions_table db) of
        None \<Rightarrow> (Inl (HTTPException 404 ''Session not found''), db)
      | Some session \<Rightarrow>
          (case fetch_one (\<lambda>u. u_name u = user_name) (users_table db) of
             None \<Rightarrow> (Inl (HTTPException 404 ''User not found''), db)
           | Some user \<Rightarrow>
               (let (restaurant_id, db1) =
                      (case fetch_one (\<lambda>r. r_name r = restaurant_name) (restaurants_table db) of
                         None \<Rightarrow> insert_restaurant restaurant_name db
                       | Some restaurant \<Rightarrow> (r_id restaurant, db));
                    db2 = snd (insert_submission (u_id user) session_id restaurant_id db1);
                    submissions = fetch_all (\<lambda>x. usr_session_id x = session_id)
                                    (user_session_restaurants_table db2);
                    participants = s_expected_number_of_participants session;
                    db3 = update_session session_id
                            (\<lambda>s. s\<lparr>s_progress := progress_value (length submissions) participants\<rparr>)
                            db2
                in (Inr ''Restaurant submitted successfully'', db3))))"

section \<open>Reachable databases\<close>

text \<open>
  The store starts empty and changes only through the four handlers that write:
  login, create_session, end_session (with any draw) and submit_restaurant.
\<close>

inductive reachable :: "database \<Rightarrow> bool" where
  start: "reachable empty_database"
| by_login: "reachable db \<Longrightarrow> reachable (snd (login username db))"
| by_create_session:
    "reachable db \<Longrightarrow> reachable (snd (create_session name owner_name n db))"
| by_end_session: "reachable db \<Longrightarrow> reachable (snd (end_session rnd session_id db))"
| by_submit_restaurant:
    "reachable db \<Longrightarrow> reachable (snd (submit_restaurant session_id restaurant_name user_name db))"

text \<open>
  The submissions recorded for a session, and the session row an identifier resolves
  to: the row that the query of the handlers finds. An integer that cannot be bound
  resolves to no session.
\<close>

definition submissions_of :: "int \<Rightarrow> database \<Rightarrow> submission_row list" where
  "submissions_of session_id db =
     fetch_all (\<lambda>x. usr_session_id x = session_id) (user_session_restaurants_table db)"

definition session_of :: "int \<Rightarrow> database \<Rightarrow> session_row option" where
  "session_of session_id db =
     (if sqlite_integer session_id
      then fetch_one (\<lambda>s. s_id s = session_id) (sessions_table db)
      else None)"

definition restaurant_of :: "int \<Rightarrow> database \<Rightarrow> restaurant_row option" where
  "restaurant_of restaurant_id db =
     fetch_one (\<lambda>r. r_id r = restaurant_id) (restaurants_table db)"

definition user_of :: "string \<Rightarrow> database \<Rightarrow> user_row option" where
  "user_of username db = fetch_one (\<lambda>u. u_name u = username) (users_table db)"

section \<open>What every reachable database satisfies\<close>

text \<open>Primary keys of sessions and restaurants are not repeated.\<close>

definition keys_distinct :: "database \<Rightarrow> bool" where
  "keys_distinct db \<longleftrightarrow>
     distinct (map s_id (sessions_table db)) \<and> distinct (map r_id (restaurants_table db))"

text \<open>Every submission refers to a stored session and a stored restaurant.\<close>

definition references_resolve :: "database \<Rightarrow> bool" where
  "references_resolve db \<longleftrightarrow>
     (\<forall>x \<in> set (user_session_restaurants_table db).
        usr_session_id x \<in> s_id ` set (sessions_table db) \<and>
        usr_restaurant_id x \<in> r_id ` set (restaurants_table db))"

text \<open>A session with a result has at least one submission.\<close>

definition result_has_submission :: "database \<Rightarrow> bool" where
  "result_has_submission db \<longleftrightarrow>
     (\<forall>s \<in> set (sessions_table db). s_result s \<noteq> None \<longrightarrow> submissions_of (s_id s) db \<noteq> [])"

text \<open>The stored progress of a session is the one computed from its submissions.\<close>

definition progress_consistent :: "database \<Rightarrow> bool" where
  "progress_consistent db \<longleftrightarrow>
     (\<forall>s \<in> set (sessions_table db).
        s_progress s =
          progress_value (length (submissions_of (s_id s) db))
            (s_expected_number_of_participants s))"

section \<open>Example databases\<close>

text \<open>
  The scenario of the specification: alice creates the session "Dinner" for two
  participants; then bob logs in and both submit a restaurant.
\<close>

definition dinner_open :: database where
  "dinner_open = snd (create_session ''Dinner'' ''alice'' 2 empty_database)"

definition dinner_half :: database where
  "dinner_half =
     snd (submit_restaurant 1 ''Pizza Place'' ''alice'' (snd (login ''bob'' dinner_open)))"

definition dinner_full :: database where
  "dinner_full = snd (submit_restaurant 1 ''Sushi Bar'' ''bob'' dinner_half)"

text \<open>The same session after a first close whose draw picked the first submission.\<close>

definition dinner_closed :: database where
  "dinner_closed = snd (end_session 0 1 dinner_full)"

text \<open>A session for one participant to which alice submits twice.\<close>

definition lunch_twice :: database where
  "lunch_twice =
     snd (submit_restaurant 1 ''Pizza Place'' ''alice''
       (snd (submit_restaurant 1 ''Pizza Place'' ''alice''
         (snd (create_session ''Lunch'' ''alice'' 1 empty_database)))))"

section \<open>Facts about the store access functions\<close>

lemma max_id_ge: "i \<in> set ids \<Longrightarrow> i \<le> max_id ids"
  by (induction ids) auto

lemma last_record_id_fresh: "last_record_id ids \<notin> set ids"
proof
  assume "last_record_id ids \<in> set ids"
  then have "last_record_id ids \<le> max_id ids" by (rule max_id_ge)
  then show False by (simp add: last_record_id_def)
qed

lemma fetch_one_None_iff: "fetch_one p rows = None \<longleftrightarrow> (\<forall>x \<in> set rows. \<not> p x)"
  by (auto simp: fetch_one_def find_None_iff)

lemma fetch_one_SomeD: "fetch_one p rows = Some x \<Longrightarrow> x \<in> set rows \<and> p x"
  by (auto simp: fetch_one_def find_Some_iff)

lemma if_else_None_eq_Some: "(if c then x else None) = Some y \<longleftrightarrow> c \<and> x = Some y"
  by simp

lemma if_else_None_eq_None: "(if c then x else None) = None \<longleftrightarrow> (c \<longrightarrow> x = None)"
  by simp

lemmas session_of_unfold = session_of_def if_else_None_eq_Some if_else_None_eq_None

lemma fetch_one_append:
  "fetch_one p (rows @ rows2) =
     (case fetch_one p rows of None \<Rightarrow> fetch_one p rows2 | Some x \<Rightarrow> Some x)"
  unfolding fetch_one_def by (induction rows) auto

lemma fetch_one_update:
  assumes "\<And>x. p (f x) = p x"
  shows "fetch_one p (map (\<lambda>x. if p x then f x else x) rows) = map_option f (fetch_one p rows)"
  unfolding fetch_one_def using assms by (induction rows) auto

lemma fetch_one_distinct:
  "distinct (map key rows) \<Longrightarrow> x \<in> set rows \<Longrightarrow> fetch_one (\<lambda>y. key y = key x) rows = Some x"
  unfolding fetch_one_def by (induction rows) (auto simp: image_iff)

section \<open>The tables after each handler\<close>

lemma login_tables:
  "sessions_table (snd (login username db)) = sessions_table db"
  "restaurants_table (snd (login username db)) = restaurants_table db"
  "user_session_restaurants_table (snd (login username db)) = user_session_restaurants_table db"
  by (simp_all add: login_def insert_user_def Let_def split: option.splits)

lemma create_session_tables:
  "restaurants_table (snd (create_session name owner_name n db)) = restaurants_table db"
  "user_session_restaurants_table (snd (create_session name owner_name n db)) =
     user_session_restaurants_table db"
  "sessions_table (snd (create_session name owner_name n db)) = sessions_table db \<or>
   (\<exists>owner_id. sessions_table (snd (create_session name owner_name n db)) =
     sessions_table db @
       [\<lparr>s_id = last_record_id (map s_id (sessions_table db)), s_name = name, s_progress = 0,
         s_expected_number_of_participants = n, s_owner_id = owner_id, s_status = ''open'',
         s_result = None\<rparr>])"
  by (simp_all add: create_session_def insert_user_def insert_session_def Let_def
      split: option.splits prod.splits)

lemma end_session_tables:
  "restaurants_table (snd (end_session rnd session_id db)) = restaurants_table db"
  "user_session_restaurants_table (snd (end_session rnd session_id db)) =
     user_session_restaurants_table db"
  "users_table (snd (end_session rnd session_id db)) = users_table db"
  by (simp_all add: end_session_def update_session_def Let_def
      split: option.splits sum.splits)

lemma end_session_sessions:
  "sessions_table (snd (end_session rnd session_id db)) = sessions_table db \<or>
   sessions_table (snd (end_session rnd session_id db)) =
     map (\<lambda>s. if s_id s = session_id then s\<lparr>s_status := ''closed''\<rparr> else s) (sessions_table db) \<or>
   (submissions_of session_id db \<noteq> [] \<and>
    (\<exists>name. sessions_table (snd (end_session rnd session_id db)) =
       map (\<lambda>s. if s_id s = session_id then s\<lparr>s_status := ''closed'', s_result := Some name\<rparr> else s)
         (sessions_table db)))"
  by (auto simp add: end_session_def update_session_def Let_def submissions_of_def
      random_choice_def o_def
      split: option.splits sum.splits if_splits intro!: exI)

lemma submit_restaurant_fails:
  "session_of session_id db = None \<or> user_of user_name db = None \<Longrightarrow>
   snd (submit_restaurant session_id restaurant_name user_name db) = db"
  by (auto simp: submit_restaurant_def session_of_unfold user_of_def split: option.splits)

lemma submit_restaurant_users:
  "users_table (snd (submit_restaurant session_id restaurant_name user_name db)) = users_table db"
  by (simp add: submit_restaurant_def insert_restaurant_def insert_submission_def
      update_session_def Let_def split: option.splits prod.splits)

lemma submit_restaurant_restaurants:
  "restaurants_table (snd (submit_restaurant session_id restaurant_name user_name db)) =
     restaurants_table db \<or>
   restaurants_table (snd (submit_restaurant session_id restaurant_name user_name db)) =
     restaurants_table db @
       [\<lparr>r_id = last_record_id (map r_id (restaurants_table db)), r_session_id = None,
         r_name = restaurant_name\<rparr>]"
  by (simp add: submit_restaurant_def insert_restaurant_def insert_submission_def
      update_session_def Let_def split: option.splits prod.splits)

lemma submit_restaurant_submissions:
  assumes "session_of session_id db = Some session" and "user_of user_name db = Some user"
  shows "\<exists>rid. user_session_restaurants_table
                 (snd (submit_restaurant session_id restaurant_name user_name db)) =
               user_session_restaurants_table db @
                 [\<lparr>usr_id = last_record_id (map usr_id (user_session_restaurants_table db)),
                   usr_user_id = u_id user, usr_session_id = session_id,
                   usr_restaurant_id = rid\<rparr>] \<and>
               (\<exists>r \<in> set (restaurants_table
                           (snd (submit_restaurant session_id restaurant_name user_name db))).
                  r_id r = rid \<and> r_name r = restaurant_name)"
  using assms
  by (auto simp: submit_restaurant_def insert_restaurant_def insert_submission_def
      update_session_def Let_def session_of_unfold user_of_def
      split: option.splits prod.splits dest: fetch_one_SomeD)

lemma submit_restaurant_sessions:
  assumes "session_of session_id db = Some session" and "user_of user_name db = Some user"
  shows "sessions_table (snd (submit_restaurant session_id restaurant_name user_name db)) =
           map (\<lambda>s. if s_id s = session_id
                     then s\<lparr>s_progress :=
                            progress_value (Suc (length (submissions_of session_id db)))
                              (s_expected_number_of_participants session)\<rparr>
                     else s)
             (sessions_table db)"
  using assms
  by (auto simp: submit_restaurant_def insert_restaurant_def insert_submission_def
      update_session_def Let_def session_of_unfold user_of_def submissions_of_def fetch_all_def
      split: option.splits prod.splits)

lemma submissions_of_cong:
  "user_session_restaurants_table db' = user_session_restaurants_table db \<Longrightarrow>
   submissions_of session_id db' = submissions_of session_id db"
  by (simp add: submissions_of_def)

lemma end_session_ids:
  "map s_id (sessions_table (snd (end_session rnd session_id db))) = map s_id (sessions_table db)"
  using end_session_sessions [of rnd session_id db] by (auto simp: o_def)

lemma submit_restaurant_ids:
  "map s_id (sessions_table (snd (submit_restaurant session_id restaurant_name user_name db))) =
     map s_id (sessions_table db)"
proof (cases "session_of session_id db = None \<or> user_of user_name db = None")
  case True
  then show ?thesis by (simp add: submit_restaurant_fails)
next
  case False
  then obtain session user where "session_of session_id db = Some session"
    and "user_of user_name db = Some user" by auto
  then show ?thesis by (simp add: submit_restaurant_sessions o_def)
qed

subsection \<open>Primary keys stay distinct\<close>

lemma keys_distinct_start: "keys_distinct empty_database"
  by (simp add: keys_distinct_def empty_database_def)

lemma keys_distinct_login: "keys_distinct db \<Longrightarrow> keys_distinct (snd (login username db))"
  by (simp add: keys_distinct_def login_tables)

lemma keys_distinct_create_session:
  assumes "keys_distinct db"
  shows "keys_distinct (snd (create_session name owner_name n db))"
proof (cases "sessions_table (snd (create_session name owner_name n db)) = sessions_table db")
  case True
  with assms show ?thesis
    by (simp add: keys_distinct_def create_session_tables(1,2))
next
  case False
  then obtain owner_id where "sessions_table (snd (create_session name owner_name n db)) =
     sessions_table db @
       [\<lparr>s_id = last_record_id (map s_id (sessions_table db)), s_name = name, s_progress = 0,
         s_expected_number_of_participants = n, s_owner_id = owner_id, s_status = ''open'',
         s_result = None\<rparr>]"
    using create_session_tables(3) [of name owner_name n db] by blast
  with assms show ?thesis
    using last_record_id_fresh [of "map s_id (sessions_table db)"]
    by (simp add: keys_distinct_def create_session_tables(1))
qed

lemma keys_distinct_end_session:
  "keys_distinct db \<Longrightarrow> keys_distinct (snd (end_session rnd session_id db))"
  by (simp add: keys_distinct_def end_session_ids end_session_tables)

lemma keys_distinct_submit_restaurant:
  assumes "keys_distinct db"
  shows "keys_distinct (snd (submit_restaurant session_id restaurant_name user_name db))"
  using assms submit_restaurant_restaurants [of session_id restaurant_name user_name db]
    last_record_id_fresh [of "map r_id (restaurants_table db)"]
  by (auto simp: keys_distinct_def submit_restaurant_ids)

lemma reachable_keys_distinct: "reachable db \<Longrightarrow> keys_distinct db"
  by (induction rule: reachable.induct)
    (simp_all add: keys_distinct_start keys_distinct_login keys_distinct_create_session
      keys_distinct_end_session keys_distinct_submit_restaurant)

subsection \<open>References of submissions stay resolvable\<close>

lemma references_resolve_start: "references_resolve empty_database"
  by (simp add: references_resolve_def empty_database_def)

lemma references_resolve_login:
  "references_resolve db \<Longrightarrow> references_resolve (snd (login username db))"
  by (simp add: references_resolve_def login_tables)

lemma references_resolve_create_session:
  assumes "references_resolve db"
  shows "references_resolve (snd (create_session name owner_name n db))"
proof (cases "sessions_table (snd (create_session name owner_name n db)) = sessions_table db")
  case True
  with assms show ?thesis
    by (simp add: references_resolve_def create_session_tables(1,2))
next
  case False
  then obtain owner_id where "sessions_table (snd (create_session name owner_name n db)) =
     sessions_table db @
       [\<lparr>s_id = last_record_id (map s_id (sessions_table db)), s_name = name, s_progress = 0,
         s_expected_number_of_participants = n, s_owner_id = owner_id, s_status = ''open'',
         s_result = None\<rparr>]"
    using create_session_tables(3) [of name owner_name n db] by blast
  with assms show ?thesis
    by (simp add: references_resolve_def create_session_tables(1,2))
qed

lemma references_resolve_end_session:
  assumes "references_resolve db"
  shows "references_resolve (snd (end_session rnd session_id db))"
proof -
  have "s_id ` set (sessions_table (snd (end_session rnd session_id db))) =
        s_id ` set (sessions_table db)"
    using end_session_ids [of rnd session_id db] by (metis set_map)
  with assms show ?thesis
    by (simp add: references_resolve_def end_session_tables)
qed

lemma references_resolve_submit_restaurant:
  assumes "references_resolve db"
  shows "references_resolve (snd (submit_restaurant session_id restaurant_name user_name db))"
proof (cases "session_of session_id db = None \<or> user_of user_name db = None")
  case True
  with assms show ?thesis by (simp add: submit_restaurant_fails)
next
  case False
  then obtain session user where s: "session_of session_id db = Some session"
    and u: "user_of user_name db = Some user" by auto
  let ?db' = "snd (submit_restaurant session_id restaurant_name user_name db)"
  have ids: "s_id ` set (sessions_table ?db') = s_id ` set (sessions_table db)"
    using submit_restaurant_ids [of session_id restaurant_name user_name db] by (metis set_map)
  have sid: "session_id \<in> s_id ` set (sessions_table db)"
    using s fetch_one_SomeD [of "\<lambda>s. s_id s = session_id" "sessions_table db" session]
    by (auto simp: session_of_unfold)
  have rs: "set (restaurants_table db) \<subseteq> set (restaurants_table ?db')"
    using submit_restaurant_restaurants [of session_id restaurant_name user_name db] by auto
  obtain rid where subs: "user_session_restaurants_table ?db' =
               user_session_restaurants_table db @
                 [\<lparr>usr_id = last_record_id (map usr_id (user_session_restaurants_table db)),
                   usr_user_id = u_id user, usr_session_id = session_id,
                   usr_restaurant_id = rid\<rparr>]"
    and rid: "\<exists>r \<in> set (restaurants_table ?db'). r_id r = rid \<and> r_name r = restaurant_name"
    using submit_restaurant_submissions [OF s u] by blast
  show ?thesis
    unfolding references_resolve_def subs ids
    using assms sid rs rid by (auto simp: references_resolve_def)
qed

lemma reachable_references_resolve: "reachable db \<Longrightarrow> references_resolve db"
  by (induction rule: reachable.induct)
    (simp_all add: references_resolve_start references_resolve_login
      references_resolve_create_session references_resolve_end_session
      references_resolve_submit_restaurant)

subsection \<open>A result needs a submission\<close>

lemma result_has_submission_start: "result_has_submission empty_database"
  by (simp add: result_has_submission_def empty_database_def)

lemma result_has_submission_login:
  "result_has_submission db \<Longrightarrow> result_has_submission (snd (login username db))"
  by (simp add: result_has_submission_def login_tables submissions_of_def)

lemma result_has_submission_create_session:
  assumes "result_has_submission db"
  shows "result_has_submission (snd (create_session name owner_name n db))"
proof (cases "sessions_table (snd (create_session name owner_name n db)) = sessions_table db")
  case True
  with assms show ?thesis
    by (simp add: result_has_submission_def create_session_tables(1,2) submissions_of_def)
next
  case False
  then obtain owner_id where "sessions_table (snd (create_session name owner_name n db)) =
     sessions_table db @
       [\<lparr>s_id = last_record_id (map s_id (sessions_table db)), s_name = name, s_progress = 0,
         s_expected_number_of_participants = n, s_owner_id = owner_id, s_status = ''open'',
         s_result = None\<rparr>]"
    using create_session_tables(3) [of name owner_name n db] by blast
  with assms show ?thesis
    by (auto simp: result_has_submission_def create_session_tables(2) submissions_of_def)
qed

lemma result_has_submission_end_session:
  assumes "result_has_submission db"
  shows "result_has_submission (snd (end_session rnd session_id db))"
  using assms end_session_sessions [of rnd session_id db]
  by (auto simp: result_has_submission_def end_session_tables(2) submissions_of_def)

lemma submit_restaurant_submissions_of:
  assumes "session_of session_id db = Some session" and "user_of user_name db = Some user"
  shows "\<exists>x. usr_user_id x = u_id user \<and>
           (\<exists>r \<in> set (restaurants_table
                       (snd (submit_restaurant session_id restaurant_name user_name db))).
              r_id r = usr_restaurant_id x \<and> r_name r = restaurant_name) \<and>
           (\<forall>i. submissions_of i (snd (submit_restaurant session_id restaurant_name user_name db)) =
              (if i = session_id then submissions_of i db @ [x] else submissions_of i db))"
proof -
  let ?db' = "snd (submit_restaurant session_id restaurant_name user_name db)"
  obtain rid where subs: "user_session_restaurants_table ?db' =
               user_session_restaurants_table db @
                 [\<lparr>usr_id = last_record_id (map usr_id (user_session_restaurants_table db)),
                   usr_user_id = u_id user, usr_session_id = session_id,
                   usr_restaurant_id = rid\<rparr>]"
    and rid: "\<exists>r \<in> set (restaurants_table ?db'). r_id r = rid \<and> r_name r = restaurant_name"
    using submit_restaurant_submissions [OF assms] by blast
  let ?x = "\<lparr>usr_id = last_record_id (map usr_id (user_session_restaurants_table db)),
             usr_user_id = u_id user, usr_session_id = session_id, usr_restaurant_id = rid\<rparr>"
  have "\<forall>i. submissions_of i ?db' =
          (if i = session_id then submissions_of i db @ [?x] else submissions_of i db)"
    by (simp add: submissions_of_def fetch_all_def subs)
  with rid show ?thesis by (intro exI [of _ ?x]) simp
qed

lemma result_has_submission_submit_restaurant:
  assumes "result_has_submission db"
  shows "result_has_submission (snd (submit_restaurant session_id restaurant_name user_name db))"
proof (cases "session_of session_id db = None \<or> user_of user_name db = None")
  case True
  with assms show ?thesis by (simp add: submit_restaurant_fails)
next
  case False
  then obtain session user where s: "session_of session_id db = Some session"
    and u: "user_of user_name db = Some user" by auto
  from submit_restaurant_submissions_of [OF s u, of restaurant_name]
  obtain x where "\<forall>i. submissions_of i (snd (submit_restaurant session_id restaurant_name user_name db)) =
              (if i = session_id then submissions_of i db @ [x] else submissions_of i db)"
    by blast
  with assms show ?thesis
    by (auto simp: result_has_submission_def submit_restaurant_sessions [OF s u])
qed

lemma reachable_result_has_submission: "reachable db \<Longrightarrow> result_has_submission db"
  by (induction rule: reachable.induct)
    (simp_all add: result_has_submission_start result_has_submission_login
      result_has_submission_create_session result_has_submission_end_session
      result_has_submission_submit_restaurant)

subsection \<open>Stored progress follows the submissions\<close>

lemma py_round_of_int: "py_round (of_int k) = k"
  by (simp add: py_round_def)

lemma progress_value_0: "progress_value 0 n = 0"
  using py_round_of_int [of 0] by (simp add: progress_value_def)

lemma progress_consistent_start: "progress_consistent empty_database"
  by (simp add: progress_consistent_def empty_database_def)

lemma progress_consistent_login:
  "progress_consistent db \<Longrightarrow> progress_consistent (snd (login username db))"
  by (simp add: progress_consistent_def login_tables submissions_of_def)

lemma unknown_session_no_submissions:
  assumes "references_resolve db" and "i \<notin> s_id ` set (sessions_table db)"
  shows "submissions_of i db = []"
  using assms
  by (auto simp: references_resolve_def submissions_of_def fetch_all_def filter_empty_conv)

lemma progress_consistent_create_session:
  assumes "progress_consistent db" and "references_resolve db"
  shows "progress_consistent (snd (create_session name owner_name n db))"
proof (cases "sessions_table (snd (create_session name owner_name n db)) = sessions_table db")
  case True
  with assms(1) show ?thesis
    by (simp add: progress_consistent_def create_session_tables(1,2) submissions_of_def)
next
  case False
  then obtain owner_id where "sessions_table (snd (create_session name owner_name n db)) =
     sessions_table db @
       [\<lparr>s_id = last_record_id (map s_id (sessions_table db)), s_name = name, s_progress = 0,
         s_expected_number_of_participants = n, s_owner_id = owner_id, s_status = ''open'',
         s_result = None\<rparr>]"
    using create_session_tables(3) [of name owner_name n db] by blast
  moreover have "submissions_of (last_record_id (map s_id (sessions_table db))) db = []"
    using assms(2) last_record_id_fresh [of "map s_id (sessions_table db)"]
    by (intro unknown_session_no_submissions) simp_all
  ultimately show ?thesis
    using assms(1)
    by (simp add: progress_consistent_def progress_value_0
        submissions_of_cong [OF create_session_tables(2)])
qed

lemma progress_consistent_end_session:
  assumes "progress_consistent db"
  shows "progress_consistent (snd (end_session rnd session_id db))"
  using assms end_session_sessions [of rnd session_id db]
  by (auto simp: progress_consistent_def submissions_of_cong [OF end_session_tables(2)])

lemma progress_consistent_submit_restaurant:
  assumes "progress_consistent db" and "keys_distinct db"
  shows "progress_consistent (snd (submit_restaurant session_id restaurant_name user_name db))"
proof (cases "session_of session_id db = None \<or> user_of user_name db = None")
  case True
  with assms show ?thesis by (simp add: submit_restaurant_fails)
next
  case False
  then obtain session user where s: "session_of session_id db = Some session"
    and u: "user_of user_name db = Some user" by auto
  from submit_restaurant_submissions_of [OF s u, of restaurant_name]
  obtain x where subs: "\<And>i. submissions_of i (snd (submit_restaurant session_id restaurant_name user_name db)) =
              (if i = session_id then submissions_of i db @ [x] else submissions_of i db)"
    by blast
  have same: "t = session" if "t \<in> set (sessions_table db)" and "s_id t = session_id" for t
  proof -
    have "fetch_one (\<lambda>y. s_id y = s_id t) (sessions_table db) = Some t"
      using assms(2) that(1) by (intro fetch_one_distinct) (simp add: keys_distinct_def)
    with s that(2) show ?thesis by (simp add: session_of_unfold)
  qed
  show ?thesis
    unfolding progress_consistent_def submit_restaurant_sessions [OF s u]
    using assms(1) same by (auto simp: progress_consistent_def subs)
qed

lemma reachable_progress_consistent: "reachable db \<Longrightarrow> progress_consistent db"
  by (induction rule: reachable.induct)
    (simp_all add: progress_consistent_start progress_consistent_login
      progress_consistent_create_session progress_consistent_end_session
      progress_consistent_submit_restaurant reachable_references_resolve
      reachable_keys_distinct)

section \<open>Facts about the example databases\<close>

text \<open>Unfolding every handler, to evaluate it on an example database.\<close>

lemmas handler_defs =
  login_def create_session_def end_session_def submit_restaurant_def check_submission_def
  insert_user_def insert_session_def insert_restaurant_def insert_submission_def
  update_session_def fetch_one_def fetch_all_def last_record_id_def random_choice_def
  empty_database_def progress_value_def submissions_of_def session_of_def restaurant_of_def
  user_of_def sqlite_integer_def

lemma dinner_open_eq:
  "dinner_open =
     \<lparr>sessions_table =
        [\<lparr>s_id = 1, s_name = ''Dinner'', s_progress = 0, s_expected_number_of_participants = 2,
          s_owner_id = 1, s_status = ''open'', s_result = None\<rparr>],
      users_table = [\<lparr>u_id = 1, u_name = ''alice''\<rparr>], restaurants_table = [],
      user_session_restaurants_table = []\<rparr>"
  by (simp add: dinner_open_def handler_defs)

lemma dinner_half_eq:
  "dinner_half =
     \<lparr>sessions_table =
        [\<lparr>s_id = 1, s_name = ''Dinner'', s_progress = 50, s_expected_number_of_participants = 2,
          s_owner_id = 1, s_status = ''open'', s_result = None\<rparr>],
      users_table = [\<lparr>u_id = 1, u_name = ''alice''\<rparr>, \<lparr>u_id = 2, u_name = ''bob''\<rparr>],
      restaurants_table = [\<lparr>r_id = 1, r_session_id = None, r_name = ''Pizza Place''\<rparr>],
      user_session_restaurants_table =
        [\<lparr>usr_id = 1, usr_user_id = 1, usr_session_id = 1, usr_restaurant_id = 1\<rparr>]\<rparr>"
  by (simp add: dinner_half_def dinner_open_eq handler_defs py_round_def)

lemma dinner_full_eq:
  "dinner_full =
     \<lparr>sessions_table =
        [\<lparr>s_id = 1, s_name = ''Dinner'', s_progress = 100, s_expected_number_of_participants = 2,
          s_owner_id = 1, s_status = ''open'', s_result = None\<rparr>],
      users_table = [\<lparr>u_id = 1, u_name = ''alice''\<rparr>, \<lparr>u_id = 2, u_name = ''bob''\<rparr>],
      restaurants_table =
        [\<lparr>r_id = 1, r_session_id = None, r_name = ''Pizza Place''\<rparr>,
         \<lparr>r_id = 2, r_session_id = None, r_name = ''Sushi Bar''\<rparr>],
      user_session_restaurants_table =
        [\<lparr>usr_id = 1, usr_user_id = 1, usr_session_id = 1, usr_restaurant_id = 1\<rparr>,
         \<lparr>usr_id = 2, usr_user_id = 2, usr_session_id = 1, usr_restaurant_id = 2\<rparr>]\<rparr>"
  by (simp add: dinner_full_def dinner_half_eq handler_defs py_round_def)

lemma dinner_closed_eq:
  "dinner_closed =
     dinner_full\<lparr>sessions_table :=
        [\<lparr>s_id = 1, s_name = ''Dinner'', s_progress = 100, s_expected_number_of_participants = 2,
          s_owner_id = 1, s_status = ''closed'', s_result = Some ''Pizza Place''\<rparr>]\<rparr>"
  by (simp add: dinner_closed_def dinner_full_eq handler_defs)

lemma reachable_dinner_open: "reachable dinner_open"
  unfolding dinner_open_def by (intro reachable.intros)

lemma reachable_dinner_half: "reachable dinner_half"
  unfolding dinner_half_def by (intro reachable.intros reachable_dinner_open)

lemma reachable_dinner_full: "reachable dinner_full"
  unfolding dinner_full_def by (intro reachable.intros reachable_dinner_half)

lemma reachable_dinner_closed: "reachable dinner_closed"
  unfolding dinner_closed_def by (intro reachable.intros reachable_dinner_full)

section \<open>Closing a session\<close>

subsection \<open>An unknown session\<close>

text \<open>
  C7, as stated, fails: the only session of the example has identifier 1, so \<open>2^63\<close>
  resolves to no session, but closing it raises the OverflowError of the driver and
  not the 404. The database is left as it was.
\<close>

theorem end_session_unknown_counterexample:
  "map s_id (sessions_table dinner_full) = [1] \<and>
   session_of (2 ^ 63) dinner_full = None \<and>
   end_session 0 (2 ^ 63) dinner_full = (Inl OverflowError, dinner_full)"
  by (simp add: dinner_full_eq end_session_def session_of_def sqlite_integer_def)

text \<open>
  C7, amended. When the session identifier is a signed 64-bit integer and resolves to
  no session, end_session raises the 404 "Session not found" and returns the database
  exactly as it received it: no session, submission, user or restaurant is written.
\<close>

theorem end_session_unknown:
  "sqlite_integer session_id \<Longrightarrow> session_of session_id db = None \<Longrightarrow>
     end_session rnd session_id db = (Inl (HTTPException 404 ''Session not found''), db)"
  by (simp add: end_session_def session_of_unfold)

theorem end_session_unknown_witness:
  "sqlite_integer 7 \<and> session_of 7 dinner_full = None \<and>
   end_session 0 7 dinner_full = (Inl (HTTPException 404 ''Session not found''), dinner_full)"
proof -
  have i: "sqlite_integer 7"
    by (simp add: sqlite_integer_def)
  have s: "session_of 7 dinner_full = None"
    by (simp add: dinner_full_eq session_of_def sqlite_integer_def fetch_one_def)
  from end_session_unknown [OF i s, of 0] i s show ?thesis by simp
qed

subsection \<open>A known session with submissions\<close>

lemma session_of_update_session:
  assumes "session_of session_id db = Some session" and "\<And>t. s_id (f t) = s_id t"
  shows "session_of session_id (update_session session_id f db) = Some (f session)"
  using assms fetch_one_update [of "\<lambda>s. s_id s = session_id" f "sessions_table db"]
  by (simp add: session_of_unfold update_session_def)

lemma update_session_tables:
  "users_table (update_session session_id f db) = users_table db"
  "restaurants_table (update_session session_id f db) = restaurants_table db"
  "user_session_restaurants_table (update_session session_id f db) =
     user_session_restaurants_table db"
  by (simp_all add: update_session_def)

lemma end_session_known:
  assumes "session_of session_id db = Some session"
  shows "end_session rnd session_id db =
     (case random_choice rnd (submissions_of session_id db) of
        Inl e \<Rightarrow> (Inl e, update_session session_id (\<lambda>s. s\<lparr>s_status := ''closed''\<rparr>) db)
      | Inr x \<Rightarrow>
         (case restaurant_of (usr_restaurant_id x) db of
            None \<Rightarrow> (Inl TypeError, update_session session_id (\<lambda>s. s\<lparr>s_status := ''closed''\<rparr>) db)
          | Some r \<Rightarrow>
              (Inr (''Session ended successfully'', r_name r),
               update_session session_id (\<lambda>s. s\<lparr>s_result := Some (r_name r)\<rparr>)
                 (update_session session_id (\<lambda>s. s\<lparr>s_status := ''closed''\<rparr>) db))))"
  using assms
  by (simp add: end_session_def session_of_unfold submissions_of_def restaurant_of_def
      update_session_tables Let_def split: sum.splits option.splits)

lemma referenced_restaurant:
  assumes "references_resolve db" and "x \<in> set (submissions_of session_id db)"
  shows "\<exists>r. restaurant_of (usr_restaurant_id x) db = Some r"
proof -
  from assms have "usr_restaurant_id x \<in> r_id ` set (restaurants_table db)"
    by (auto simp: references_resolve_def submissions_of_def fetch_all_def)
  then have "restaurant_of (usr_restaurant_id x) db \<noteq> None"
    by (auto simp: restaurant_of_def fetch_one_None_iff)
  then show ?thesis by auto
qed

lemma end_session_draw:
  assumes "references_resolve db" and "session_of session_id db = Some session"
    and "submissions_of session_id db \<noteq> []"
  shows "\<exists>r. restaurant_of
               (usr_restaurant_id
                  (submissions_of session_id db ! (rnd mod length (submissions_of session_id db))))
               db = Some r \<and>
             fst (end_session rnd session_id db) = Inr (''Session ended successfully'', r_name r) \<and>
             session_of session_id (snd (end_session rnd session_id db)) =
               Some (session\<lparr>s_status := ''closed'', s_result := Some (r_name r)\<rparr>)"
proof -
  let ?S = "submissions_of session_id db"
  let ?x = "?S ! (rnd mod length ?S)"
  from assms(3) have "?x \<in> set ?S" by simp
  with assms(1) obtain r where r: "restaurant_of (usr_restaurant_id ?x) db = Some r"
    using referenced_restaurant by blast
  have choice: "random_choice rnd ?S = Inr ?x"
    using assms(3) by (simp add: random_choice_def)
  have closed: "session_of session_id (update_session session_id (\<lambda>s. s\<lparr>s_status := ''closed''\<rparr>) db) =
      Some (session\<lparr>s_status := ''closed''\<rparr>)"
    using assms(2) by (rule session_of_update_session) simp
  have "session_of session_id
          (update_session session_id (\<lambda>s. s\<lparr>s_result := Some (r_name r)\<rparr>)
            (update_session session_id (\<lambda>s. s\<lparr>s_status := ''closed''\<rparr>) db)) =
        Some (session\<lparr>s_status := ''closed'', s_result := Some (r_name r)\<rparr>)"
    using session_of_update_session [OF closed, of "\<lambda>s. s\<lparr>s_result := Some (r_name r)\<rparr>"]
    by simp
  then show ?thesis
    using r by (simp add: end_session_known [OF assms(2)] choice)
qed

text \<open>
  C6. In a reachable database, closing a stored session that has at least one
  submission returns successfully for every draw; the result it returns is the name
  of the restaurant referenced by one of the session's submissions, and the session
  row afterwards is the old row with status closed and that name as result.
\<close>

theorem end_session_selects:
  assumes "reachable db" and "session_of session_id db = Some session"
    and "submissions_of session_id db \<noteq> []"
  shows "\<exists>x \<in> set (submissions_of session_id db). \<exists>r.
           restaurant_of (usr_restaurant_id x) db = Some r \<and>
           fst (end_session rnd session_id db) = Inr (''Session ended successfully'', r_name r) \<and>
           session_of session_id (snd (end_session rnd session_id db)) =
             Some (session\<lparr>s_status := ''closed'', s_result := Some (r_name r)\<rparr>)"
proof -
  let ?S = "submissions_of session_id db"
  from assms(3) have "?S ! (rnd mod length ?S) \<in> set ?S" by simp
  moreover note end_session_draw [OF reachable_references_resolve [OF assms(1)] assms(2,3), of rnd]
  ultimately show ?thesis by blast
qed

theorem end_session_selects_witness:
  "reachable dinner_full \<and> submissions_of 1 dinner_full \<noteq> [] \<and>
   fst (end_session 1 1 dinner_full) = Inr (''Session ended successfully'', ''Sushi Bar'') \<and>
   map s_status (sessions_table (snd (end_session 1 1 dinner_full))) = [''closed''] \<and>
   map s_result (sessions_table (snd (end_session 1 1 dinner_full))) = [Some ''Sushi Bar'']"
proof -
  have s: "session_of 1 dinner_full = Some (hd (sessions_table dinner_full))"
    by (simp add: dinner_full_eq session_of_def sqlite_integer_def fetch_one_def)
  have n: "submissions_of 1 dinner_full \<noteq> []"
    by (simp add: dinner_full_eq submissions_of_def fetch_all_def)
  show ?thesis
    using end_session_selects [OF reachable_dinner_full s n, of 1] reachable_dinner_full n
    by (simp add: dinner_full_eq handler_defs)
qed

subsection \<open>A known session without submissions\<close>

text \<open>
  C9. In a reachable database, closing a stored session that has no submission
  raises (the IndexError of the selection), and the database it leaves behind holds
  the session with status closed and no result: the status was written before the
  submissions were read.
\<close>

theorem end_session_empty:
  assumes "reachable db" and "session_of session_id db = Some session"
    and "submissions_of session_id db = []"
  shows "fst (end_session rnd session_id db) = Inl IndexError \<and>
         session_of session_id (snd (end_session rnd session_id db)) =
           Some (session\<lparr>s_status := ''closed'', s_result := None\<rparr>)"
proof -
  have "session \<in> set (sessions_table db)" and "s_id session = session_id"
    using assms(2) fetch_one_SomeD [of "\<lambda>s. s_id s = session_id" "sessions_table db" session]
    by (simp_all add: session_of_unfold)
  with assms(3) reachable_result_has_submission [OF assms(1)] have "s_result session = None"
    by (auto simp: result_has_submission_def)
  then have same: "session\<lparr>s_status := ''closed'', s_result := None\<rparr> = session\<lparr>s_status := ''closed''\<rparr>"
    by simp
  have "session_of session_id (update_session session_id (\<lambda>s. s\<lparr>s_status := ''closed''\<rparr>) db) =
      Some (session\<lparr>s_status := ''closed''\<rparr>)"
    using assms(2) by (rule session_of_update_session) simp
  then show ?thesis
    by (simp add: end_session_known [OF assms(2)] assms(3) random_choice_def same)
qed

theorem end_session_empty_witness:
  "reachable dinner_open \<and> submissions_of 1 dinner_open = [] \<and>
   fst (end_session 0 1 dinner_open) = Inl IndexError \<and>
   map s_status (sessions_table (snd (end_session 0 1 dinner_open))) = [''closed''] \<and>
   map s_result (sessions_table (snd (end_session 0 1 dinner_open))) = [None]"
proof -
  have s: "session_of 1 dinner_open = Some (hd (sessions_table dinner_open))"
    by (simp add: dinner_open_eq session_of_def sqlite_integer_def fetch_one_def)
  have n: "submissions_of 1 dinner_open = []"
    by (simp add: dinner_open_eq submissions_of_def fetch_all_def)
  show ?thesis
    using end_session_empty [OF reachable_dinner_open s n, of 0] reachable_dinner_open n
    by (simp add: dinner_open_eq handler_defs)
qed

text \<open>
  C1. Closing the freshly created session "Dinner", which has no submission, does not
  succeed: \<open>random.choice\<close> raises IndexError on the empty list. The status has
  been written by then, so the session is left closed, with no result.
\<close>

theorem end_session_no_submissions_raises:
  "end_session 0 1 dinner_open =
     (Inl IndexError,
      dinner_open\<lparr>sessions_table :=
        [\<lparr>s_id = 1, s_name = ''Dinner'', s_progress = 0, s_expected_number_of_participants = 2,
          s_owner_id = 1, s_status = ''closed'', s_result = None\<rparr>]\<rparr>)"
  by (simp add: dinner_open_eq handler_defs)

subsection \<open>A session that is closed already\<close>

text \<open>
  C2, as stated, fails: the session "Dinner" is closed with result "Pizza Place";
  closing it again with a draw that picks the second submission stores "Sushi Bar".
\<close>

theorem end_session_again_counterexample:
  "map s_status (sessions_table dinner_closed) = [''closed''] \<and>
   map s_result (sessions_table dinner_closed) = [Some ''Pizza Place''] \<and>
   map s_result (sessions_table (snd (end_session 1 1 dinner_closed))) = [Some ''Sushi Bar'']"
  by (simp add: dinner_closed_eq dinner_full_eq handler_defs)

text \<open>
  C2, amended. In a reachable database, closing a session that is already closed with
  a result succeeds again and keeps the status closed, but it draws again: the session
  has submissions, and the stored result is replaced by the name of the restaurant of
  the submission the new draw selects. Nothing else of the session row changes.
\<close>

theorem end_session_again:
  assumes "reachable db" and "session_of session_id db = Some session"
    and "s_status session = ''closed''" and "s_result session = Some old"
  shows "submissions_of session_id db \<noteq> [] \<and>
         (\<exists>r. restaurant_of
                 (usr_restaurant_id
                    (submissions_of session_id db !
                       (rnd mod length (submissions_of session_id db))))
                 db = Some r \<and>
               fst (end_session rnd session_id db) =
                 Inr (''Session ended successfully'', r_name r) \<and>
               session_of session_id (snd (end_session rnd session_id db)) =
                 Some (session\<lparr>s_result := Some (r_name r)\<rparr>))"
proof -
  have "session \<in> set (sessions_table db)" and "s_id session = session_id"
    using assms(2) fetch_one_SomeD [of "\<lambda>s. s_id s = session_id" "sessions_table db" session]
    by (simp_all add: session_of_unfold)
  with assms(4) reachable_result_has_submission [OF assms(1)]
  have nonempty: "submissions_of session_id db \<noteq> []"
    by (auto simp: result_has_submission_def)
  have "session\<lparr>s_status := ''closed''\<rparr> = session"
    using assms(3) by simp
  then have "session\<lparr>s_status := ''closed'', s_result := Some name\<rparr> =
             session\<lparr>s_result := Some name\<rparr>" for name
    by simp
  with end_session_draw [OF reachable_references_resolve [OF assms(1)] assms(2) nonempty, of rnd]
    nonempty
  show ?thesis by simp
qed

theorem end_session_again_witness:
  "reachable dinner_closed \<and>
   map s_status (sessions_table dinner_closed) = [''closed''] \<and>
   map s_result (sessions_table dinner_closed) = [Some ''Pizza Place''] \<and>
   fst (end_session 1 1 dinner_closed) = Inr (''Session ended successfully'', ''Sushi Bar'') \<and>
   map s_status (sessions_table (snd (end_session 1 1 dinner_closed))) = [''closed''] \<and>
   map s_result (sessions_table (snd (end_session 1 1 dinner_closed))) = [Some ''Sushi Bar'']"
proof -
  have s: "session_of 1 dinner_closed = Some (hd (sessions_table dinner_closed))"
    by (simp add: dinner_closed_eq dinner_full_eq session_of_def sqlite_integer_def fetch_one_def)
  have c: "s_status (hd (sessions_table dinner_closed)) = ''closed''"
    by (simp add: dinner_closed_eq)
  have r: "s_result (hd (sessions_table dinner_closed)) = Some ''Pizza Place''"
    by (simp add: dinner_closed_eq)
  show ?thesis
    using end_session_again [OF reachable_dinner_closed s c r, of 1] reachable_dinner_closed
    by (simp add: dinner_closed_eq dinner_full_eq handler_defs)
qed

section \<open>Progress of a session\<close>

lemma py_round_nonneg:
  assumes "0 \<le> x"
  shows "0 \<le> py_round x"
proof -
  from assms have "0 \<le> \<lfloor>x\<rfloor>" by simp
  then show ?thesis by (simp add: py_round_def Let_def)
qed

lemma py_round_le:
  assumes "x \<le> of_int k"
  shows "py_round x \<le> k"
proof (cases "\<lfloor>x\<rfloor> < k")
  case True
  then show ?thesis by (simp add: py_round_def Let_def)
next
  case False
  moreover from assms have "\<lfloor>x\<rfloor> \<le> k" by (simp add: floor_le_iff)
  ultimately have fl: "\<lfloor>x\<rfloor> = k" by simp
  then have "of_int k \<le> x" by (metis of_int_floor_le)
  with assms have "x = of_int k" by simp
  then show ?thesis by (simp add: py_round_def)
qed

lemma progress_value_nonneg: "0 \<le> progress_value n participants"
  by (simp add: progress_value_def py_round_nonneg)

lemma progress_value_le_100:
  assumes "int n \<le> participants"
  shows "progress_value n participants \<le> 100"
proof (cases "0 < participants")
  case True
  with assms have "(of_int (int n * 100) / of_int participants :: rat) \<le> of_int 100"
    by (simp add: field_simps flip: of_int_mult)
  then show ?thesis using True by (simp add: progress_value_def py_round_le del: of_int_mult)
next
  case False
  then show ?thesis by (simp add: progress_value_def)
qed

text \<open>
  C3, as stated, fails: after alice has submitted twice to a session that expects one
  participant, the stored progress is 200.
\<close>

theorem progress_range_counterexample:
  "reachable lunch_twice \<and> map s_progress (sessions_table lunch_twice) = [200]"
proof -
  have "reachable lunch_twice"
    unfolding lunch_twice_def by (intro reachable.intros)
  moreover have "map s_progress (sessions_table lunch_twice) = [200]"
    by (simp add: lunch_twice_def handler_defs py_round_def)
  ultimately show ?thesis by simp
qed

text \<open>
  C3, amended. In every reachable database the progress of every session is an integer
  that is not negative, and it is at most 100 as long as the number of submissions
  recorded for the session (repeated ones included) does not exceed the expected
  number of participants.
\<close>

theorem progress_range:
  assumes "reachable db" and "s \<in> set (sessions_table db)"
  shows "0 \<le> s_progress s \<and>
         (int (length (submissions_of (s_id s) db)) \<le> s_expected_number_of_participants s \<longrightarrow>
            s_progress s \<le> 100)"
  using assms(2) reachable_progress_consistent [OF assms(1)]
  by (simp add: progress_consistent_def progress_value_nonneg progress_value_le_100)

theorem progress_range_witness:
  "reachable dinner_full \<and>
   int (length (submissions_of 1 dinner_full)) \<le> 2 \<and>
   map s_progress (sessions_table dinner_full) = [100]"
proof -
  have s: "hd (sessions_table dinner_full) \<in> set (sessions_table dinner_full)"
    by (simp add: dinner_full_eq)
  show ?thesis
    using progress_range [OF reachable_dinner_full s] reachable_dinner_full
    by (simp add: dinner_full_eq submissions_of_def fetch_all_def)
qed

section \<open>Submitting a restaurant\<close>

lemma submit_restaurant_succeeds:
  assumes "session_of session_id db = Some session" and "user_of user_name db = Some user"
  shows "fst (submit_restaurant session_id restaurant_name user_name db) =
           Inr ''Restaurant submitted successfully''"
  using assms
  by (simp add: submit_restaurant_def session_of_unfold user_of_def Let_def
      split: option.splits prod.splits)

lemma submit_restaurant_unknown_user:
  assumes "session_of session_id db = Some session" and "user_of user_name db = None"
  shows "submit_restaurant session_id restaurant_name user_name db =
           (Inl (HTTPException 404 ''User not found''), db)"
  using assms by (simp add: submit_restaurant_def session_of_unfold user_of_def)

text \<open>
  C4, as stated, fails: in the database that holds the session "Dinner" and the user
  alice only, a submission under the unknown name bob raises the 404 "User not found"
  and leaves the database as it was; bob is not created.
\<close>

theorem submit_restaurant_unknown_user_counterexample:
  "map s_id (sessions_table dinner_open) = [1] \<and>
   map u_name (users_table dinner_open) = [''alice''] \<and>
   submit_restaurant 1 ''Sushi Bar'' ''bob'' dinner_open =
     (Inl (HTTPException 404 ''User not found''), dinner_open)"
  by (simp add: dinner_open_eq handler_defs)

text \<open>
  C4, amended. For a submission to a stored session, an unknown user name makes
  submit_restaurant raise the 404 "User not found" with the database unchanged (the
  user is not created, nothing is recorded); a known user name makes it succeed, with
  the users table unchanged and one submission of that user added to the session.
\<close>

theorem submit_restaurant_participant:
  assumes "session_of session_id db = Some session"
  shows "(user_of user_name db = None \<longrightarrow>
            submit_restaurant session_id restaurant_name user_name db =
              (Inl (HTTPException 404 ''User not found''), db)) \<and>
         (\<forall>user. user_of user_name db = Some user \<longrightarrow>
            fst (submit_restaurant session_id restaurant_name user_name db) =
              Inr ''Restaurant submitted successfully'' \<and>
            users_table (snd (submit_restaurant session_id restaurant_name user_name db)) =
              users_table db \<and>
            (\<exists>x. usr_user_id x = u_id user \<and>
               submissions_of session_id
                 (snd (submit_restaurant session_id restaurant_name user_name db)) =
               submissions_of session_id db @ [x]))"
proof (intro conjI allI impI)
  assume "user_of user_name db = None"
  with assms show "submit_restaurant session_id restaurant_name user_name db =
      (Inl (HTTPException 404 ''User not found''), db)"
    by (rule submit_restaurant_unknown_user)
next
  fix user assume u: "user_of user_name db = Some user"
  from assms u show "fst (submit_restaurant session_id restaurant_name user_name db) =
      Inr ''Restaurant submitted successfully''"
    by (rule submit_restaurant_succeeds)
  show "users_table (snd (submit_restaurant session_id restaurant_name user_name db)) =
      users_table db"
    by (rule submit_restaurant_users)
  from submit_restaurant_submissions_of [OF assms u, of restaurant_name]
  show "\<exists>x. usr_user_id x = u_id user \<and>
          submissions_of session_id
            (snd (submit_restaurant session_id restaurant_name user_name db)) =
          submissions_of session_id db @ [x]"
    by auto
qed

theorem submit_restaurant_participant_witness:
  "user_of ''bob'' dinner_open = None \<and>
   submit_restaurant 1 ''Sushi Bar'' ''bob'' dinner_open =
     (Inl (HTTPException 404 ''User not found''), dinner_open) \<and>
   user_of ''alice'' dinner_open = Some \<lparr>u_id = 1, u_name = ''alice''\<rparr> \<and>
   fst (submit_restaurant 1 ''Pizza Place'' ''alice'' dinner_open) =
     Inr ''Restaurant submitted successfully'' \<and>
   map usr_user_id (submissions_of 1 (snd (submit_restaurant 1 ''Pizza Place'' ''alice'' dinner_open))) = [1]"
proof -
  have s: "session_of 1 dinner_open = Some (hd (sessions_table dinner_open))"
    by (simp add: dinner_open_eq session_of_def sqlite_integer_def fetch_one_def)
  have b: "user_of ''bob'' dinner_open = None"
    by (simp add: dinner_open_eq user_of_def fetch_one_def)
  have a: "user_of ''alice'' dinner_open = Some \<lparr>u_id = 1, u_name = ''alice''\<rparr>"
    by (simp add: dinner_open_eq user_of_def fetch_one_def)
  have e: "submissions_of 1 dinner_open = []"
    by (simp add: dinner_open_eq submissions_of_def fetch_all_def)
  from submit_restaurant_participant [OF s, of "''bob''" "''Sushi Bar''"] b
  have 1: "submit_restaurant 1 ''Sushi Bar'' ''bob'' dinner_open =
     (Inl (HTTPException 404 ''User not found''), dinner_open)"
    by simp
  from submit_restaurant_participant [OF s, of "''alice''" "''Pizza Place''"] a e
  have 2: "fst (submit_restaurant 1 ''Pizza Place'' ''alice'' dinner_open) =
     Inr ''Restaurant submitted successfully''"
   and 3: "map usr_user_id (submissions_of 1 (snd (submit_restaurant 1 ''Pizza Place'' ''alice'' dinner_open))) = [1]"
    by auto
  from 1 2 3 a b show ?thesis by simp
qed

text \<open>
  C5. When submit_restaurant on a stored session with \<open>E\<close> expected participants
  returns successfully, the session has one submission more than before, and its row
  in the new database is the old row with progress \<open>round(n * 100 / E)\<close> if
  \<open>E > 0\<close> and 0 otherwise, where \<open>n\<close> is the number of submissions of the
  session in the new database.
\<close>

theorem submit_restaurant_progress:
  assumes "session_of session_id db = Some session"
    and "submit_restaurant session_id restaurant_name user_name db = (Inr message, db')"
  shows "length (submissions_of session_id db') = length (submissions_of session_id db) + 1 \<and>
         session_of session_id db' =
           Some (session\<lparr>s_progress :=
             (if 0 < s_expected_number_of_participants session
              then py_round (of_int (int (length (submissions_of session_id db')) * 100) /
                             of_int (s_expected_number_of_participants session))
              else 0)\<rparr>)"
proof -
  have "user_of user_name db \<noteq> None"
  proof
    assume "user_of user_name db = None"
    with assms(1) have "fst (submit_restaurant session_id restaurant_name user_name db) =
        Inl (HTTPException 404 ''User not found'')"
      by (simp add: submit_restaurant_unknown_user)
    with assms(2) show False by simp
  qed
  then obtain user where u: "user_of user_name db = Some user" by auto
  have db': "db' = snd (submit_restaurant session_id restaurant_name user_name db)"
    using assms(2) by simp
  from submit_restaurant_submissions_of [OF assms(1) u, of restaurant_name]
  obtain x where "submissions_of session_id db' = submissions_of session_id db @ [x]"
    unfolding db' by auto
  then have len: "length (submissions_of session_id db') = Suc (length (submissions_of session_id db))"
    by simp
  have "sessions_table db' =
      map (\<lambda>s. if s_id s = session_id
                then s\<lparr>s_progress :=
                       progress_value (Suc (length (submissions_of session_id db)))
                         (s_expected_number_of_participants session)\<rparr>
                else s)
        (sessions_table db)"
    unfolding db' using assms(1) u by (rule submit_restaurant_sessions)
  then have "db' = update_session session_id
      (\<lambda>s. s\<lparr>s_progress := progress_value (Suc (length (submissions_of session_id db)))
                         (s_expected_number_of_participants session)\<rparr>) (db'\<lparr>sessions_table := sessions_table db\<rparr>)"
    by (simp add: update_session_def)
  moreover have "session_of session_id (db'\<lparr>sessions_table := sessions_table db\<rparr>) = Some session"
    using assms(1) by (simp add: session_of_unfold)
  ultimately have "session_of session_id db' =
      Some (session\<lparr>s_progress := progress_value (Suc (length (submissions_of session_id db)))
                         (s_expected_number_of_participants session)\<rparr>)"
    using session_of_update_session [of session_id "db'\<lparr>sessions_table := sessions_table db\<rparr>" session
        "\<lambda>s. s\<lparr>s_progress := progress_value (Suc (length (submissions_of session_id db)))
                         (s_expected_number_of_participants session)\<rparr>"]
    by simp
  with len show ?thesis by (simp add: progress_value_def)
qed

theorem submit_restaurant_progress_witness:
  "fst (submit_restaurant 1 ''Pizza Place'' ''alice'' dinner_open) =
     Inr ''Restaurant submitted successfully'' \<and>
   length (submissions_of 1 (snd (submit_restaurant 1 ''Pizza Place'' ''alice'' dinner_open))) = 1 \<and>
   map s_expected_number_of_participants (sessions_table dinner_open) = [2] \<and>
   map s_progress (sessions_table (snd (submit_restaurant 1 ''Pizza Place'' ''alice'' dinner_open))) = [50]"
proof -
  have s: "session_of 1 dinner_open = Some (hd (sessions_table dinner_open))"
    by (simp add: dinner_open_eq session_of_def sqlite_integer_def fetch_one_def)
  have r: "submit_restaurant 1 ''Pizza Place'' ''alice'' dinner_open =
     (Inr ''Restaurant submitted successfully'',
      snd (submit_restaurant 1 ''Pizza Place'' ''alice'' dinner_open))"
    by (simp add: dinner_open_eq handler_defs)
  show ?thesis
    using submit_restaurant_progress [OF s r]
    by (simp add: dinner_open_eq handler_defs py_round_def)
qed

section \<open>Checking for a submission\<close>

lemma check_submission_none:
  assumes "sqlite_integer session_id" and "user_of username db = Some user"
    and "\<forall>x \<in> set (submissions_of session_id db). usr_user_id x \<noteq> u_id user"
  shows "check_submission session_id username db = Inr (False, None)"
proof -
  have "fetch_one (\<lambda>x. usr_session_id x = session_id \<and> usr_user_id x = u_id user)
          (user_session_restaurants_table db) = None"
    using assms(3) by (auto simp: fetch_one_None_iff submissions_of_def fetch_all_def)
  with assms(1,2) show ?thesis by (simp add: check_submission_def user_of_def)
qed

text \<open>
  C10, as stated, fails: in the example, \<open>2^63\<close> resolves to no session and bob is a
  stored user, but check_submission raises the OverflowError of the driver when its
  query of the submissions binds the identifier; it does not return
  \<open>submitted = False\<close>.
\<close>

theorem check_submission_unknown_session_counterexample:
  "map s_id (sessions_table dinner_full) = [1] \<and>
   session_of (2 ^ 63) dinner_full = None \<and>
   user_of ''bob'' dinner_full = Some \<lparr>u_id = 2, u_name = ''bob''\<rparr> \<and>
   check_submission (2 ^ 63) ''bob'' dinner_full = Inl OverflowError"
  by (simp add: dinner_full_eq check_submission_def session_of_def user_of_def
      sqlite_integer_def fetch_one_def)

text \<open>
  C10, amended. check_submission never looks the session up. In a reachable database,
  for a session identifier that is a signed 64-bit integer and resolves to no session,
  and the name of a stored user, it returns \<open>submitted = False\<close> instead of raising
  a 404.
\<close>

theorem check_submission_unknown_session:
  assumes "reachable db" and "sqlite_integer session_id"
    and "session_of session_id db = None" and "user_of username db = Some user"
  shows "check_submission session_id username db = Inr (False, None)"
proof -
  from assms(2,3) have "session_id \<notin> s_id ` set (sessions_table db)"
    by (auto simp: session_of_unfold fetch_one_None_iff)
  with reachable_references_resolve [OF assms(1)] have "submissions_of session_id db = []"
    by (rule unknown_session_no_submissions)
  with assms(2,4) show ?thesis by (simp add: check_submission_none)
qed

theorem check_submission_unknown_session_witness:
  "reachable dinner_full \<and> sqlite_integer 7 \<and> session_of 7 dinner_full = None \<and>
   user_of ''bob'' dinner_full = Some \<lparr>u_id = 2, u_name = ''bob''\<rparr> \<and>
   check_submission 7 ''bob'' dinner_full = Inr (False, None)"
proof -
  have i: "sqlite_integer 7"
    by (simp add: sqlite_integer_def)
  have s: "session_of 7 dinner_full = None"
    by (simp add: dinner_full_eq session_of_def sqlite_integer_def fetch_one_def)
  have u: "user_of ''bob'' dinner_full = Some \<lparr>u_id = 2, u_name = ''bob''\<rparr>"
    by (simp add: dinner_full_eq user_of_def fetch_one_def)
  from check_submission_unknown_session [OF reachable_dinner_full i s u]
    reachable_dinner_full i s u
  show ?thesis by simp
qed

text \<open>
  C8. In a reachable database, for a stored session and a stored user who has no
  submission in that session, check_submission returns \<open>submitted = False\<close>; the
  user's submit_restaurant then succeeds, and check_submission on the database it
  leaves returns \<open>submitted = True\<close> with the restaurant name just submitted.
\<close>

theorem check_submission_before_and_after:
  assumes "reachable db" and "session_of session_id db = Some session"
    and "user_of username db = Some user"
    and "\<forall>x \<in> set (submissions_of session_id db). usr_user_id x \<noteq> u_id user"
  shows "check_submission session_id username db = Inr (False, None) \<and>
         fst (submit_restaurant session_id restaurant_name username db) =
           Inr ''Restaurant submitted successfully'' \<and>
         check_submission session_id username
           (snd (submit_restaurant session_id restaurant_name username db)) =
           Inr (True, Some restaurant_name)"
proof -
  let ?db' = "snd (submit_restaurant session_id restaurant_name username db)"
  have bindable: "sqlite_integer session_id"
    using assms(2) by (simp add: session_of_unfold)
  have before: "check_submission session_id username db = Inr (False, None)"
    using bindable assms(3,4) by (rule check_submission_none)
  have ok: "fst (submit_restaurant session_id restaurant_name username db) =
      Inr ''Restaurant submitted successfully''"
    using assms(2,3) by (rule submit_restaurant_succeeds)
  have user': "fetch_one (\<lambda>u. u_name u = username) (users_table ?db') = Some user"
    using assms(3) by (simp add: submit_restaurant_users user_of_def)
  obtain rid where subs: "user_session_restaurants_table ?db' =
               user_session_restaurants_table db @
                 [\<lparr>usr_id = last_record_id (map usr_id (user_session_restaurants_table db)),
                   usr_user_id = u_id user, usr_session_id = session_id,
                   usr_restaurant_id = rid\<rparr>]"
    and rid: "\<exists>r \<in> set (restaurants_table ?db'). r_id r = rid \<and> r_name r = restaurant_name"
    using submit_restaurant_submissions [OF assms(2,3)] by blast
  have none: "fetch_one (\<lambda>x. usr_session_id x = session_id \<and> usr_user_id x = u_id user)
          (user_session_restaurants_table db) = None"
    using assms(4) by (auto simp: fetch_one_None_iff submissions_of_def fetch_all_def)
  have found: "fetch_one (\<lambda>x. usr_session_id x = session_id \<and> usr_user_id x = u_id user)
          (user_session_restaurants_table ?db') =
        Some \<lparr>usr_id = last_record_id (map usr_id (user_session_restaurants_table db)),
              usr_user_id = u_id user, usr_session_id = session_id, usr_restaurant_id = rid\<rparr>"
    unfolding subs fetch_one_append none by (simp add: fetch_one_def)
  from rid obtain r where r: "r \<in> set (restaurants_table ?db')" "r_id r = rid"
    "r_name r = restaurant_name" by blast
  have "reachable ?db'" using assms(1) by (rule reachable.by_submit_restaurant)
  then have "distinct (map r_id (restaurants_table ?db'))"
    using reachable_keys_distinct by (simp add: keys_distinct_def)
  from fetch_one_distinct [OF this r(1)] r(2)
  have "fetch_one (\<lambda>y. r_id y = rid) (restaurants_table ?db') = Some r" by simp
  with bindable user' found r(3)
  have "check_submission session_id username ?db' = Inr (True, Some restaurant_name)"
    by (simp add: check_submission_def)
  with before ok show ?thesis by simp
qed

theorem check_submission_before_and_after_witness:
  "reachable dinner_half \<and>
   map usr_user_id (submissions_of 1 dinner_half) = [1] \<and>
   user_of ''bob'' dinner_half = Some \<lparr>u_id = 2, u_name = ''bob''\<rparr> \<and>
   check_submission 1 ''bob'' dinner_half = Inr (False, None) \<and>
   fst (submit_restaurant 1 ''Sushi Bar'' ''bob'' dinner_half) =
     Inr ''Restaurant submitted successfully'' \<and>
   check_submission 1 ''bob'' (snd (submit_restaurant 1 ''Sushi Bar'' ''bob'' dinner_half)) =
     Inr (True, Some ''Sushi Bar'')"
proof -
  have s: "session_of 1 dinner_half = Some (hd (sessions_table dinner_half))"
    by (simp add: dinner_half_eq session_of_def sqlite_integer_def fetch_one_def)
  have u: "user_of ''bob'' dinner_half = Some \<lparr>u_id = 2, u_name = ''bob''\<rparr>"
    by (simp add: dinner_half_eq user_of_def fetch_one_def)
  have m: "map usr_user_id (submissions_of 1 dinner_half) = [1]"
    by (simp add: dinner_half_eq submissions_of_def fetch_all_def)
  have n: "\<forall>x \<in> set (submissions_of 1 dinner_half).
             usr_user_id x \<noteq> u_id \<lparr>u_id = 2, u_name = ''bob''\<rparr>"
    by (simp add: dinner_half_eq submissions_of_def fetch_all_def)
  from check_submission_before_and_after [OF reachable_dinner_half s u n, of "''Sushi Bar''"]
    reachable_dinner_half u m
  show ?thesis by simp
qed

end
